theory Spec2Isabelle
  imports Complex_Main "HOL-Library.AList"
begin

section \<open>Numbers\<close>

text \<open>
  The TypeScript type \<open>number\<close> is modelled by \<open>real\<close> for the values carried by
  readings and zone ranges (JSON numbers are finite); rounding of IEEE doubles is
  abstracted. The one place where the code can leave the finite numbers is a division
  whose divisor is zero. JavaScript does not raise there: it yields \<open>Infinity\<close>,
  \<open>-Infinity\<close> or \<open>NaN\<close>. The result of a division is therefore a \<open>jsnum\<close>, and the
  comparisons on it follow JavaScript: every comparison with \<open>NaN\<close> is false.
\<close>

datatype jsnum = Num real | PosInf | NegInf | NaN

definition js_div :: "real \<Rightarrow> real \<Rightarrow> jsnum" where
  "js_div a b =
     (if b \<noteq> 0 then Num (a / b)
      else if a > 0 then PosInf
      else if a < 0 then NegInf
      else NaN)"

fun js_abs :: "jsnum \<Rightarrow> jsnum" where
  "js_abs (Num x) = Num \<bar>x\<bar>"
| "js_abs PosInf = PosInf"
| "js_abs NegInf = PosInf"
| "js_abs NaN = NaN"

fun js_le :: "jsnum \<Rightarrow> real \<Rightarrow> bool" where
  "js_le (Num x) c = (x \<le> c)"
| "js_le PosInf c = False"
| "js_le NegInf c = True"
| "js_le NaN c = False"

fun js_gt :: "jsnum \<Rightarrow> real \<Rightarrow> bool" where
  "js_gt (Num x) c = (x > c)"
| "js_gt PosInf c = True"
| "js_gt NegInf c = False"
| "js_gt NaN c = False"

section \<open>Data model (types/index.ts)\<close>

record EnergyReading =
  timestamp :: string
  zoneId :: string
  zoneName :: string
  energyKw :: real
  temperature :: real
  equipmentCount :: real

datatype AnomalyType = Spike | Drop | Flatline

datatype AnomalySeverity = Warning | Critical

record Anomaly =
  anomalyId :: string
  anomalyType :: AnomalyType
  anomalyZoneId :: string
  anomalyZoneName :: string
  anomalyTimestamp :: string
  anomalyValue :: real
  threshold :: real
  severity :: AnomalySeverity

datatype ConnectionStatus = CONNECTING | CONNECTED | DISCONNECTED | ERROR

section \<open>Anomaly detection (utils/anomalyDetection.ts)\<close>

record ZoneRange =
  rangeMin :: real
  rangeMax :: real

text \<open>
  \<open>ZONE_RANGES\<close> is an object literal. Its own properties are the five registered
  zones.
\<close>

definition ZONE_RANGES :: "string \<Rightarrow> ZoneRange option" where
  "ZONE_RANGES = map_of
     [(''assembly-1'', \<lparr>rangeMin = 220, rangeMax = 280\<rparr>),
      (''paint-shop'', \<lparr>rangeMin = 150, rangeMax = 200\<rparr>),
      (''stamping-press'', \<lparr>rangeMin = 300, rangeMax = 400\<rparr>),
      (''quality-control'', \<lparr>rangeMin = 50, rangeMax = 80\<rparr>),
      (''warehouse'', \<lparr>rangeMin = 20, rangeMax = 40\<rparr>)]"

text \<open>
  The expression \<open>ZONE_RANGES[key]\<close> reads a property of the object, and an object
  literal inherits from \<open>Object.prototype\<close>: for a key that is not an own property but
  names a property of \<open>Object.prototype\<close>, the read yields the inherited value (a
  function, or the prototype object itself for \<open>__proto__\<close>), which is truthy and has
  no \<open>min\<close> and no \<open>max\<close>. For every other key the read yields \<open>undefined\<close>.
\<close>

datatype js_value = Undefined | RangeObject ZoneRange | InheritedValue

definition Object_prototype_keys :: "string list" where
  "Object_prototype_keys =
     [''constructor'', ''hasOwnProperty'', ''isPrototypeOf'', ''propertyIsEnumerable'',
      ''toLocaleString'', ''toString'', ''valueOf'', ''__proto__'',
      ''__defineGetter__'', ''__defineSetter__'', ''__lookupGetter__'',
      ''__lookupSetter__'']"

definition ZONE_RANGES_lookup :: "string \<Rightarrow> js_value" where
  "ZONE_RANGES_lookup key =
     (case ZONE_RANGES key of
        Some rng \<Rightarrow> RangeObject rng
      | None \<Rightarrow> if key \<in> set Object_prototype_keys then InheritedValue else Undefined)"

definition calculateSeverity :: "real \<Rightarrow> real \<Rightarrow> real \<Rightarrow> AnomalySeverity" where
  "calculateSeverity val thr criticalMultiplier =
     (if val > thr * criticalMultiplier then Critical else Warning)"

definition createAnomaly ::
  "EnergyReading \<Rightarrow> AnomalyType \<Rightarrow> real \<Rightarrow> AnomalySeverity \<Rightarrow> Anomaly" where
  "createAnomaly reading ty thr sev =
     \<lparr>anomalyId = zoneId reading @ ''-'' @ timestamp reading,
      anomalyType = ty,
      anomalyZoneId = zoneId reading,
      anomalyZoneName = zoneName reading,
      anomalyTimestamp = timestamp reading,
      anomalyValue = energyKw reading,
      threshold = thr,
      severity = sev\<rparr>"

text \<open>
  The second part of \<open>detectAnomaly\<close>, the pattern rule: no previous reading or one of
  another zone gives \<open>null\<close>; otherwise the percent change decides.
\<close>

definition patternDetection :: "EnergyReading \<Rightarrow> EnergyReading option \<Rightarrow> Anomaly option" where
  "patternDetection reading previousReading =
     (case previousReading of
        None \<Rightarrow> None
      | Some prev \<Rightarrow>
          if zoneId prev \<noteq> zoneId reading then None
          else
            (let e = energyKw reading;
                 percentChange = js_abs (js_div (e - energyKw prev) (energyKw prev))
             in if js_le percentChange 0.3 then None
                else Some (createAnomaly reading
                             (if e > energyKw prev then Spike else Drop)
                             (energyKw prev)
                             (if js_gt percentChange 0.5 then Critical else Warning))))"

text \<open>
  \<open>detectAnomaly\<close> returns \<open>None\<close> for \<open>null\<close>. The optional second argument is an
  \<open>option\<close>. The cascade is in the order of the source: the guard \<open>!range\<close>, the spike
  threshold, the drop threshold, then the pattern rule. When the value read from
  \<open>ZONE_RANGES\<close> is an inherited one, the guard lets it pass, \<open>range.max\<close> and
  \<open>range.min\<close> are \<open>undefined\<close>, both thresholds are \<open>NaN\<close>, and both threshold
  tests (\<open>energyKw > NaN\<close>, \<open>energyKw < NaN\<close>) are false: the pattern rule runs.
\<close>

definition detectAnomaly :: "EnergyReading \<Rightarrow> EnergyReading option \<Rightarrow> Anomaly option" where
  "detectAnomaly reading previousReading =
     (case ZONE_RANGES_lookup (zoneId reading) of
        Undefined \<Rightarrow> None
      | RangeObject rng \<Rightarrow>
          (let e = energyKw reading;
               spikeThreshold = rangeMax rng * 1.5;
               dropThreshold = rangeMin rng * 0.5
           in if e > spikeThreshold then
                Some (createAnomaly reading Spike spikeThreshold
                        (calculateSeverity e (rangeMax rng) 2))
              else if e < dropThreshold then
                Some (createAnomaly reading Drop dropThreshold
                        (if e < rangeMin rng * 0.3 then Critical else Warning))
              else patternDetection reading previousReading)
      | InheritedValue \<Rightarrow> patternDetection reading previousReading)"

section \<open>Baselines and comparison (utils/historicalData.ts)\<close>

record HistoricalBaseline =
  baselineZoneId :: string
  baselineZoneName :: string
  avgEnergyKw :: jsnum
  minEnergyKw :: jsnum
  maxEnergyKw :: jsnum
  dataPoints :: nat

datatype js_error = RangeError

text \<open>
  The value of \<open>Math.min\<close> and of \<open>Math.max\<close> on given arguments; with no argument
  they are \<open>Infinity\<close> and \<open>-Infinity\<close>.
\<close>

fun smallest :: "real list \<Rightarrow> jsnum" where
  "smallest [] = PosInf"
| "smallest (x # xs) = (case smallest xs of Num m \<Rightarrow> Num (min x m) | _ \<Rightarrow> Num x)"

fun largest :: "real list \<Rightarrow> jsnum" where
  "largest [] = NegInf"
| "largest (x # xs) = (case largest xs of Num m \<Rightarrow> Num (max x m) | _ \<Rightarrow> Num x)"

text \<open>
  The calls \<open>Math.min(...xs)\<close> and \<open>Math.max(...xs)\<close> spread the array into the
  arguments of a call. An engine accepts a bounded number of arguments and throws
  \<open>RangeError\<close> beyond it. The bound depends on the engine and is a parameter,
  \<open>argLimit\<close>, of everything that makes such a call.
\<close>

definition math_min :: "nat \<Rightarrow> real list \<Rightarrow> js_error + jsnum" where
  "math_min argLimit xs = (if length xs > argLimit then Inl RangeError else Inr (smallest xs))"

definition math_max :: "nat \<Rightarrow> real list \<Rightarrow> js_error + jsnum" where
  "math_max argLimit xs = (if length xs > argLimit then Inl RangeError else Inr (largest xs))"

text \<open>
  A JavaScript \<open>Map\<close> keeps its keys in insertion order and \<open>set\<close> on a key that is
  present replaces the value in place: an association list with \<open>AList.update\<close>.
  One turn of the grouping loop: the key gets an empty array when it is new, then the
  reading's \<open>energyKw\<close> is pushed onto the array stored under the key. The array is
  looked up with a non-null assertion right after the key was set, so the branch
  \<open>None\<close> is never taken.
\<close>

definition groupReading ::
  "EnergyReading \<Rightarrow> (string \<times> real list) list \<Rightarrow> (string \<times> real list) list" where
  "groupReading reading zoneData =
     (let zoneData1 = (if map_of zoneData (zoneId reading) = None
                       then AList.update (zoneId reading) [] zoneData
                       else zoneData)
      in case map_of zoneData1 (zoneId reading) of
           None \<Rightarrow> zoneData1
         | Some energyValues \<Rightarrow>
             AList.update (zoneId reading) (energyValues @ [energyKw reading]) zoneData1)"

text \<open>
  The body of the second loop: the statistics of one zone. An exception of a spread call
  ends the computation.
\<close>

definition zoneBaseline ::
  "nat \<Rightarrow> EnergyReading list \<Rightarrow> string \<Rightarrow> real list \<Rightarrow> js_error + HistoricalBaseline" where
  "zoneBaseline argLimit historicalData z energyValues =
     (let total = foldl (\<lambda>acc val. acc + val) 0 energyValues;
          avg = js_div total (real (length energyValues))
      in case math_min argLimit energyValues of
           Inl err \<Rightarrow> Inl err
         | Inr mn \<Rightarrow>
             (case math_max argLimit energyValues of
                Inl err \<Rightarrow> Inl err
              | Inr mx \<Rightarrow>
                  (let zname = (case List.find (\<lambda>r. zoneId r = z) historicalData of
                                  None \<Rightarrow> z
                                | Some r \<Rightarrow> if zoneName r = [] then z else zoneName r)
                   in Inr \<lparr>baselineZoneId = z, baselineZoneName = zname, avgEnergyKw = avg,
                           minEnergyKw = mn, maxEnergyKw = mx,
                           dataPoints = length energyValues\<rparr>)))"

text \<open>The second loop, over the entries of \<open>zoneData\<close> in insertion order.\<close>

fun baselinesLoop ::
  "nat \<Rightarrow> EnergyReading list \<Rightarrow> (string \<times> real list) list
     \<Rightarrow> (string \<times> HistoricalBaseline) list \<Rightarrow> js_error + (string \<times> HistoricalBaseline) list" where
  "baselinesLoop argLimit historicalData [] baselines = Inr baselines"
| "baselinesLoop argLimit historicalData ((z, energyValues) # entries) baselines =
     (case zoneBaseline argLimit historicalData z energyValues of
        Inl err \<Rightarrow> Inl err
      | Inr b \<Rightarrow> baselinesLoop argLimit historicalData entries (AList.update z b baselines))"

definition calculateBaselines ::
  "nat \<Rightarrow> EnergyReading list \<Rightarrow> js_error + (string \<times> HistoricalBaseline) list" where
  "calculateBaselines argLimit historicalData =
     (let zoneData = fold groupReading historicalData []
      in baselinesLoop argLimit historicalData zoneData [])"

definition calculatePercentageDiff :: "real \<Rightarrow> real \<Rightarrow> real" where
  "calculatePercentageDiff current baseline =
     (if baseline = 0 then 0 else ((current - baseline) / baseline) * 100)"

datatype ComparisonStatus = Normal | Above | Below

definition getComparisonStatus :: "real \<Rightarrow> ComparisonStatus" where
  "getComparisonStatus percentage =
     (if \<bar>percentage\<bar> < 10 then Normal
      else if percentage > 0 then Above else Below)"

text \<open>
  The comparison as HistoricalComparison.tsx computes it for one zone: the percentage,
  then the status of that percentage.
\<close>

definition compare :: "real \<Rightarrow> real \<Rightarrow> real \<times> ComparisonStatus" where
  "compare current baseline =
     (let percentage = calculatePercentageDiff current baseline
      in (percentage, getComparisonStatus percentage))"

section \<open>History store (context/EnergyContext.tsx)\<close>

definition MAX_READINGS_PER_ZONE :: nat where
  "MAX_READINGS_PER_ZONE = 1500"

definition MAX_ANOMALIES :: nat where
  "MAX_ANOMALIES = 50"

record EnergyState =
  latestReadings :: "string \<Rightarrow> EnergyReading option"
  readings :: "string \<Rightarrow> EnergyReading list option"
  anomalies :: "Anomaly list"
  previousReadingsRef :: "string \<Rightarrow> EnergyReading option"

definition initialState :: EnergyState where
  "initialState =
     \<lparr>latestReadings = Map.empty, readings = Map.empty, anomalies = [],
      previousReadingsRef = Map.empty\<rparr>"

text \<open>\<open>xs.slice(-n)\<close>: the last \<open>n\<close> elements, all of them when there are fewer.\<close>

definition slice_last :: "nat \<Rightarrow> 'a list \<Rightarrow> 'a list" where
  "slice_last n xs = drop (length xs - n) xs"

text \<open>
  \<open>handleMessage\<close>: the state updates of one incoming reading, applied in the order
  they are queued. \<open>shift()\<close> removes the first element.
\<close>

definition handleMessage :: "EnergyReading \<Rightarrow> EnergyState \<Rightarrow> EnergyState" where
  "handleMessage reading s =
     (let previousReading = previousReadingsRef s (zoneId reading);
          anomaly = detectAnomaly reading previousReading;
          anomalies1 = (case anomaly of
                          None \<Rightarrow> anomalies s
                        | Some a \<Rightarrow> slice_last MAX_ANOMALIES (anomalies s @ [a]));
          zoneReadings = (case readings s (zoneId reading) of None \<Rightarrow> [] | Some xs \<Rightarrow> xs);
          newReadings = zoneReadings @ [reading];
          newReadings1 = (if length newReadings > MAX_READINGS_PER_ZONE
                          then tl newReadings else newReadings)
      in \<lparr>latestReadings = (latestReadings s)(zoneId reading \<mapsto> reading),
          readings = (readings s)(zoneId reading \<mapsto> newReadings1),
          anomalies = anomalies1,
          previousReadingsRef = (previousReadingsRef s)(zoneId reading \<mapsto> reading)\<rparr>)"

text \<open>The store after a sequence of readings has arrived, oldest first.\<close>

definition ingest :: "EnergyReading list \<Rightarrow> EnergyState" where
  "ingest rs = fold handleMessage rs initialState"

text \<open>The history window of a zone; a zone never seen has the empty window.\<close>

definition window :: "EnergyState \<Rightarrow> string \<Rightarrow> EnergyReading list" where
  "window s z = (case readings s z of None \<Rightarrow> [] | Some xs \<Rightarrow> xs)"

section \<open>Reconnecting socket (hooks/useWebSocket.ts)\<close>

text \<open>
  The hook that EnergyContext calls (one argument, the message callback). Its state is
  the two React state cells \<open>status\<close> and \<open>attempts\<close>, the counter
  \<open>reconnectAttemptsRef\<close> and the flag \<open>isMounted\<close>. Each handler is a function on
  that state; \<open>onclose\<close> also returns the delay it passes to \<open>setTimeout\<close>, if it
  schedules a retry.
\<close>

record WsState =
  status :: ConnectionStatus
  attempts :: nat
  reconnectAttemptsRef :: nat
  isMounted :: bool

definition MAX_RECONNECT :: nat where
  "MAX_RECONNECT = 5"

definition initialWs :: WsState where
  "initialWs = \<lparr>status = CONNECTING, attempts = 0, reconnectAttemptsRef = 0, isMounted = True\<rparr>"

definition onopen :: "WsState \<Rightarrow> WsState" where
  "onopen s =
     (if \<not> isMounted s then s
      else s\<lparr>status := CONNECTED, attempts := 0, reconnectAttemptsRef := 0\<rparr>)"

definition onerror :: "WsState \<Rightarrow> WsState" where
  "onerror s = (if \<not> isMounted s then s else s\<lparr>status := ERROR\<rparr>)"

definition onclose :: "WsState \<Rightarrow> WsState \<times> nat option" where
  "onclose s =
     (if \<not> isMounted s then (s, None)
      else
        (let s1 = s\<lparr>status := DISCONNECTED\<rparr>
         in if reconnectAttemptsRef s1 < MAX_RECONNECT then
              (let delay = 1000 * 2 ^ reconnectAttemptsRef s1;
                   s2 = s1\<lparr>reconnectAttemptsRef := reconnectAttemptsRef s1 + 1\<rparr>;
                   s3 = s2\<lparr>attempts := reconnectAttemptsRef s2\<rparr>
               in (s3, Some delay))
            else (s1, None)))"

text \<open>The timer callback: back to \<open>CONNECTING\<close>, then a new socket is opened.\<close>

definition ontimeout :: "WsState \<Rightarrow> WsState" where
  "ontimeout s = (if isMounted s then s\<lparr>status := CONNECTING\<rparr> else s)"

definition cleanup :: "WsState \<Rightarrow> WsState" where
  "cleanup s = s\<lparr>isMounted := False\<rparr>"

datatype WsEvent = EvOpen | EvMessage | EvError | EvClose | EvTimer | EvUnmount

text \<open>
  A run of the hook over a sequence of events. The second component lists, for every
  close event in order, the delay handed to \<open>setTimeout\<close> (\<open>None\<close> when no retry was
  scheduled). A message leaves the connection state as it is.
\<close>

fun run :: "WsState \<Rightarrow> WsEvent list \<Rightarrow> WsState \<times> nat option list" where
  "run s [] = (s, [])"
| "run s (EvClose # evs) =
     (let (s1, d) = onclose s; (s2, ds) = run s1 evs in (s2, d # ds))"
| "run s (EvOpen # evs) = run (onopen s) evs"
| "run s (EvMessage # evs) = run s evs"
| "run s (EvError # evs) = run (onerror s) evs"
| "run s (EvTimer # evs) = run (ontimeout s) evs"
| "run s (EvUnmount # evs) = run (cleanup s) evs"

definition closes :: "WsEvent list \<Rightarrow> nat" where
  "closes evs = length (filter (\<lambda>e. e = EvClose) evs)"

text \<open>
  The file also holds an earlier variant of the hook (two arguments, lower-case
  statuses) that reads the delay from a table, which caps it at 16 seconds.
\<close>

definition delays :: "nat list" where
  "delays = [1000, 2000, 4000, 8000, 16000]"

definition tableDelay :: "nat \<Rightarrow> nat" where
  "tableDelay reconnectAttempts = delays ! (min reconnectAttempts (length delays - 1))"

section \<open>Auxiliary notions used in the statements\<close>

text \<open>
  The group of a zone: the \<open>energyKw\<close> values of the corpus readings of that zone, in
  corpus order.
\<close>

definition zoneValues :: "EnergyReading list \<Rightarrow> string \<Rightarrow> real list" where
  "zoneValues rs z = map energyKw (filter (\<lambda>r. zoneId r = z) rs)"

text \<open>The baseline of a group whose two spread calls succeed.\<close>

definition zoneRecord :: "EnergyReading list \<Rightarrow> string \<Rightarrow> real list \<Rightarrow> HistoricalBaseline" where
  "zoneRecord historicalData z vs =
     \<lparr>baselineZoneId = z,
      baselineZoneName = (case List.find (\<lambda>r. zoneId r = z) historicalData of
                            None \<Rightarrow> z
                          | Some r \<Rightarrow> if zoneName r = [] then z else zoneName r),
      avgEnergyKw = js_div (foldl (\<lambda>acc val. acc + val) 0 vs) (real (length vs)),
      minEnergyKw = smallest vs, maxEnergyKw = largest vs, dataPoints = length vs\<rparr>"

text \<open>
  What the \<open>k\<close>-th further close event (counted from 0) hands to \<open>setTimeout\<close> when the
  counter stands at \<open>a\<close> before the first of them.
\<close>

definition retryDelay :: "nat \<Rightarrow> nat \<Rightarrow> nat option" where
  "retryDelay a k = (if a + k < MAX_RECONNECT then Some (1000 * 2 ^ (a + k)) else None)"

section \<open>Sample inputs\<close>

definition reading_warehouse :: "real \<Rightarrow> EnergyReading" where
  "reading_warehouse e =
     \<lparr>timestamp = ''2024-01-01T00:00:05.000Z'', zoneId = ''warehouse'',
      zoneName = ''Warehouse'', energyKw = e, temperature = 18, equipmentCount = 12\<rparr>"

definition warehouse_range :: ZoneRange where
  "warehouse_range = \<lparr>rangeMin = 20, rangeMax = 40\<rparr>"

definition reading_loading_dock :: "real \<Rightarrow> EnergyReading" where
  "reading_loading_dock e =
     \<lparr>timestamp = ''2024-01-01T00:00:10.000Z'', zoneId = ''loading-dock'',
      zoneName = ''Loading Dock'', energyKw = e, temperature = 15, equipmentCount = 3\<rparr>"

definition reading_toString :: "real \<Rightarrow> EnergyReading" where
  "reading_toString e =
     \<lparr>timestamp = ''2024-01-01T00:00:15.000Z'', zoneId = ''toString'',
      zoneName = ''Unlisted'', energyKw = e, temperature = 20, equipmentCount = 1\<rparr>"

text \<open>A corpus entry that carries a zone id and an energy value only.\<close>

definition corpusReading :: "string \<Rightarrow> real \<Rightarrow> EnergyReading" where
  "corpusReading z e =
     \<lparr>timestamp = [], zoneId = z, zoneName = [], energyKw = e, temperature = 0,
      equipmentCount = 0\<rparr>"

definition warehouse_stream :: "nat \<Rightarrow> EnergyReading list" where
  "warehouse_stream n = map (\<lambda>i. reading_warehouse (real i)) [0..<n]"

text \<open>
  Six connection attempts in a row that fail: each socket reports an error and closes,
  and the retry timer fires between them.
\<close>

definition failing_run :: "WsEvent list" where
  "failing_run =
     [EvError, EvClose, EvTimer, EvError, EvClose, EvTimer, EvError, EvClose, EvTimer,
      EvError, EvClose, EvTimer, EvError, EvClose, EvTimer, EvError, EvClose]"

section \<open>Threshold rules of the detector\<close>

lemma ZONE_RANGES_lookup_registered:
  "ZONE_RANGES key = Some rng \<Longrightarrow> ZONE_RANGES_lookup key = RangeObject rng"
  by (simp add: ZONE_RANGES_lookup_def)

lemma ZONE_RANGES_warehouse:
  "ZONE_RANGES (zoneId (reading_warehouse e)) = Some warehouse_range"
  by (simp add: ZONE_RANGES_def reading_warehouse_def warehouse_range_def)

lemma ZONE_RANGES_loading_dock:
  "ZONE_RANGES (zoneId (reading_loading_dock e)) = None"
  by (simp add: ZONE_RANGES_def reading_loading_dock_def)

text \<open>
  Claim C1. For a reading whose zone has a registered range and whose \<open>energyKw\<close>
  exceeds \<open>rangeMax * 1.5\<close>, \<open>detectAnomaly\<close> returns a spike anomaly whose threshold is
  \<open>rangeMax * 1.5\<close>, whatever previous reading is supplied (also none); the severity is
  critical exactly when \<open>energyKw > rangeMax * 2\<close> and warning otherwise.
\<close>

theorem detectAnomaly_spike_threshold:
  assumes "ZONE_RANGES (zoneId reading) = Some rng"
    and "energyKw reading > rangeMax rng * 1.5"
  shows "\<exists>a. detectAnomaly reading previousReading = Some a
           \<and> anomalyType a = Spike
           \<and> threshold a = rangeMax rng * 1.5
           \<and> (severity a = Critical \<longleftrightarrow> energyKw reading > rangeMax rng * 2)
           \<and> (severity a = Warning \<longleftrightarrow> \<not> energyKw reading > rangeMax rng * 2)"
  using assms
  by (simp add: detectAnomaly_def ZONE_RANGES_lookup_registered createAnomaly_def
      calculateSeverity_def Let_def)

text \<open>
  At 70 kW in the warehouse (range 20 to 40) the spike threshold 60 is passed and the
  critical bound 80 is not; the previous reading of 69 kW plays no part.
\<close>

theorem detectAnomaly_spike_threshold_witness:
  "ZONE_RANGES (zoneId (reading_warehouse 70)) = Some warehouse_range
   \<and> energyKw (reading_warehouse 70) > rangeMax warehouse_range * 1.5
   \<and> (\<exists>a. detectAnomaly (reading_warehouse 70) (Some (reading_warehouse 69)) = Some a
         \<and> anomalyType a = Spike \<and> threshold a = 60 \<and> severity a = Warning)"
proof -
  have h1: "ZONE_RANGES (zoneId (reading_warehouse 70)) = Some warehouse_range"
    by (rule ZONE_RANGES_warehouse)
  have h2: "energyKw (reading_warehouse 70) > rangeMax warehouse_range * 1.5"
    by (simp add: reading_warehouse_def warehouse_range_def)
  from detectAnomaly_spike_threshold [OF h1 h2, of "Some (reading_warehouse 69)"]
  obtain a where "detectAnomaly (reading_warehouse 70) (Some (reading_warehouse 69)) = Some a"
    and "anomalyType a = Spike"
    and "threshold a = rangeMax warehouse_range * 1.5"
    and "severity a = Warning \<longleftrightarrow> \<not> energyKw (reading_warehouse 70) > rangeMax warehouse_range * 2"
    by blast
  then show ?thesis using h1 h2
    by (simp add: reading_warehouse_def warehouse_range_def)
qed

text \<open>
  Claim C2. For a reading whose zone has a registered range, with \<open>energyKw\<close> at most
  \<open>rangeMax * 1.5\<close> (no spike) and below \<open>rangeMin * 0.5\<close>, \<open>detectAnomaly\<close> returns a
  drop anomaly whose threshold is \<open>rangeMin * 0.5\<close>, whatever previous reading is
  supplied; the severity is critical exactly when \<open>energyKw < rangeMin * 0.3\<close> and
  warning otherwise.
\<close>

theorem detectAnomaly_drop_threshold:
  assumes "ZONE_RANGES (zoneId reading) = Some rng"
    and "energyKw reading \<le> rangeMax rng * 1.5"
    and "energyKw reading < rangeMin rng * 0.5"
  shows "\<exists>a. detectAnomaly reading previousReading = Some a
           \<and> anomalyType a = Drop
           \<and> threshold a = rangeMin rng * 0.5
           \<and> (severity a = Critical \<longleftrightarrow> energyKw reading < rangeMin rng * 0.3)
           \<and> (severity a = Warning \<longleftrightarrow> \<not> energyKw reading < rangeMin rng * 0.3)"
  using assms
  by (simp add: detectAnomaly_def ZONE_RANGES_lookup_registered createAnomaly_def Let_def)

text \<open>At 5 kW in the warehouse the drop threshold is 10 and the critical bound is 6.\<close>

theorem detectAnomaly_drop_threshold_witness:
  "ZONE_RANGES (zoneId (reading_warehouse 5)) = Some warehouse_range
   \<and> energyKw (reading_warehouse 5) \<le> rangeMax warehouse_range * 1.5
   \<and> energyKw (reading_warehouse 5) < rangeMin warehouse_range * 0.5
   \<and> (\<exists>a. detectAnomaly (reading_warehouse 5) None = Some a
         \<and> anomalyType a = Drop \<and> threshold a = 10 \<and> severity a = Critical)"
proof -
  have h1: "ZONE_RANGES (zoneId (reading_warehouse 5)) = Some warehouse_range"
    by (rule ZONE_RANGES_warehouse)
  have h2: "energyKw (reading_warehouse 5) \<le> rangeMax warehouse_range * 1.5"
    by (simp add: reading_warehouse_def warehouse_range_def)
  have h3: "energyKw (reading_warehouse 5) < rangeMin warehouse_range * 0.5"
    by (simp add: reading_warehouse_def warehouse_range_def)
  from detectAnomaly_drop_threshold [OF h1 h2 h3, of None]
  obtain a where "detectAnomaly (reading_warehouse 5) None = Some a"
    and "anomalyType a = Drop"
    and "threshold a = rangeMin warehouse_range * 0.5"
    and "severity a = Critical \<longleftrightarrow> energyKw (reading_warehouse 5) < rangeMin warehouse_range * 0.3"
    by blast
  then show ?thesis using h1 h2 h3
    by (simp add: reading_warehouse_def warehouse_range_def)
qed

section \<open>Pattern rule of the detector\<close>

text \<open>
  With a nonzero previous value the quotient is finite, and the code's
  \<open>Math.abs((e - p) / p)\<close> is \<open>\<bar>e - p\<bar> / \<bar>p\<bar>\<close>.
\<close>

lemma percentChange_nonzero:
  "p \<noteq> 0 \<Longrightarrow> js_abs (js_div (e - p) p) = Num (\<bar>e - p\<bar> / \<bar>p\<bar>)"
  by (simp add: js_div_def)

text \<open>
  The pattern rule for any nonzero previous value, negative ones included: the decision
  is taken on \<open>\<bar>e - p\<bar> / \<bar>p\<bar>\<close>.
\<close>

lemma detectAnomaly_percent_change:
  assumes "ZONE_RANGES (zoneId reading) = Some rng"
    and "energyKw reading \<le> rangeMax rng * 1.5"
    and "energyKw reading \<ge> rangeMin rng * 0.5"
    and "zoneId prev = zoneId reading"
    and "energyKw prev \<noteq> 0"
  shows "detectAnomaly reading (Some prev)
       = (let pct = \<bar>energyKw reading - energyKw prev\<bar> / \<bar>energyKw prev\<bar>
          in if pct \<le> 0.3 then None
             else Some (createAnomaly reading
                          (if energyKw reading > energyKw prev then Spike else Drop)
                          (energyKw prev)
                          (if pct > 0.5 then Critical else Warning)))"
  using assms
  by (simp add: detectAnomaly_def ZONE_RANGES_lookup_registered patternDetection_def Let_def
      percentChange_nonzero del: js_abs.simps)

text \<open>
  Claim C3, as stated, fails on the code for a negative previous value. The claim
  takes \<open>pctChange = \<bar>energyKw - previous\<bar> / previous\<close>. For a warehouse reading of
  15 kW after one of -20 kW all conditions of the claim hold and that quotient is
  -1.75, not above 0.3, so the claim asks for none; the code takes the absolute value
  of the whole quotient, 1.75, and returns a critical spike with threshold -20.
\<close>

theorem detectAnomaly_pattern_negative_previous_counterexample:
  "ZONE_RANGES (zoneId (reading_warehouse 15)) = Some warehouse_range
   \<and> energyKw (reading_warehouse 15) \<le> rangeMax warehouse_range * 1.5
   \<and> energyKw (reading_warehouse 15) \<ge> rangeMin warehouse_range * 0.5
   \<and> zoneId (reading_warehouse (- 20)) = zoneId (reading_warehouse 15)
   \<and> energyKw (reading_warehouse (- 20)) \<noteq> 0
   \<and> \<bar>energyKw (reading_warehouse 15) - energyKw (reading_warehouse (- 20))\<bar>
         / energyKw (reading_warehouse (- 20)) \<le> 0.3
   \<and> detectAnomaly (reading_warehouse 15) (Some (reading_warehouse (- 20)))
       = Some (createAnomaly (reading_warehouse 15) Spike (- 20) Critical)
   \<and> detectAnomaly (reading_warehouse 15) (Some (reading_warehouse (- 20))) \<noteq> None"
  by (simp add: detectAnomaly_def ZONE_RANGES_lookup_def patternDetection_def Let_def
      js_div_def ZONE_RANGES_def reading_warehouse_def warehouse_range_def)

text \<open>
  Claim C3 (amended). The reading's zone has a registered range, its \<open>energyKw\<close> lies
  within the threshold bounds, and the previous reading is of the same zone with a
  nonzero \<open>energyKw\<close>. With \<open>pctChange = \<bar>energyKw - previous\<bar> / \<bar>previous\<bar>\<close>, the
  absolute value of the relative change, the result is none when \<open>pctChange \<le> 0.3\<close>;
  otherwise it is an anomaly of type spike if the new value is above the previous one
  and drop if not, with the previous value as threshold, critical exactly when
  \<open>pctChange > 0.5\<close> and warning otherwise.
\<close>

theorem detectAnomaly_pattern_abs:
  assumes "ZONE_RANGES (zoneId reading) = Some rng"
    and "energyKw reading \<le> rangeMax rng * 1.5"
    and "energyKw reading \<ge> rangeMin rng * 0.5"
    and "zoneId prev = zoneId reading"
    and "energyKw prev \<noteq> 0"
  shows "let pctChange = \<bar>energyKw reading - energyKw prev\<bar> / \<bar>energyKw prev\<bar>
         in (pctChange \<le> 0.3 \<longrightarrow> detectAnomaly reading (Some prev) = None)
          \<and> (\<not> pctChange \<le> 0.3 \<longrightarrow>
               (\<exists>a. detectAnomaly reading (Some prev) = Some a
                  \<and> anomalyType a = (if energyKw reading > energyKw prev then Spike else Drop)
                  \<and> threshold a = energyKw prev
                  \<and> (severity a = Critical \<longleftrightarrow> pctChange > 0.5)
                  \<and> (severity a = Warning \<longleftrightarrow> \<not> pctChange > 0.5)))"
proof -
  have eq: "js_abs (js_div (energyKw reading - energyKw prev) (energyKw prev))
            = Num (\<bar>energyKw reading - energyKw prev\<bar> / \<bar>energyKw prev\<bar>)"
    using assms(5) by (rule percentChange_nonzero)
  show ?thesis
    using assms(1-4)
    by (simp add: detectAnomaly_def ZONE_RANGES_lookup_registered patternDetection_def
        createAnomaly_def Let_def eq del: js_abs.simps)
qed

text \<open>
  From 20 kW to 30 kW in the warehouse the change is exactly 0.5: above 0.3, so a spike
  with threshold 20, and not above 0.5, so a warning. From 20 kW to 25 kW the change is
  0.25 and nothing is reported. From -20 kW to 15 kW the change is 1.75: a critical
  spike with threshold -20.
\<close>

theorem detectAnomaly_pattern_abs_witness:
  "ZONE_RANGES (zoneId (reading_warehouse 30)) = Some warehouse_range
   \<and> energyKw (reading_warehouse 30) \<le> rangeMax warehouse_range * 1.5
   \<and> energyKw (reading_warehouse 30) \<ge> rangeMin warehouse_range * 0.5
   \<and> zoneId (reading_warehouse 20) = zoneId (reading_warehouse 30)
   \<and> energyKw (reading_warehouse 20) \<noteq> 0
   \<and> \<not> \<bar>energyKw (reading_warehouse 30) - energyKw (reading_warehouse 20)\<bar>
         / \<bar>energyKw (reading_warehouse 20)\<bar> \<le> 0.3
   \<and> (\<exists>a. detectAnomaly (reading_warehouse 30) (Some (reading_warehouse 20)) = Some a
         \<and> anomalyType a = Spike \<and> threshold a = 20 \<and> severity a = Warning)
   \<and> \<bar>energyKw (reading_warehouse 25) - energyKw (reading_warehouse 20)\<bar>
         / \<bar>energyKw (reading_warehouse 20)\<bar> \<le> 0.3
   \<and> detectAnomaly (reading_warehouse 25) (Some (reading_warehouse 20)) = None
   \<and> energyKw (reading_warehouse (- 20)) \<noteq> 0
   \<and> (\<exists>a. detectAnomaly (reading_warehouse 15) (Some (reading_warehouse (- 20))) = Some a
         \<and> anomalyType a = Spike \<and> threshold a = - 20 \<and> severity a = Critical)"
proof -
  have h1: "ZONE_RANGES (zoneId (reading_warehouse e)) = Some warehouse_range" for e
    by (rule ZONE_RANGES_warehouse)
  have h2: "energyKw (reading_warehouse 30) \<le> rangeMax warehouse_range * 1.5"
    "energyKw (reading_warehouse 25) \<le> rangeMax warehouse_range * 1.5"
    "energyKw (reading_warehouse 15) \<le> rangeMax warehouse_range * 1.5"
    by (simp_all add: reading_warehouse_def warehouse_range_def)
  have h3: "energyKw (reading_warehouse 30) \<ge> rangeMin warehouse_range * 0.5"
    "energyKw (reading_warehouse 25) \<ge> rangeMin warehouse_range * 0.5"
    "energyKw (reading_warehouse 15) \<ge> rangeMin warehouse_range * 0.5"
    by (simp_all add: reading_warehouse_def warehouse_range_def)
  have h4: "zoneId (reading_warehouse x) = zoneId (reading_warehouse e)" for x e
    by (simp add: reading_warehouse_def)
  have h5: "energyKw (reading_warehouse 20) \<noteq> 0" "energyKw (reading_warehouse (- 20)) \<noteq> 0"
    by (simp_all add: reading_warehouse_def)
  have e: "energyKw (reading_warehouse x) = x" for x
    by (simp add: reading_warehouse_def)
  note A = detectAnomaly_pattern_abs [OF h1 h2(1) h3(1) h4 h5(1)]
  note B = detectAnomaly_pattern_abs [OF h1 h2(2) h3(2) h4 h5(1)]
  note C = detectAnomaly_pattern_abs [OF h1 h2(3) h3(3) h4 h5(2)]
  from A obtain a where "detectAnomaly (reading_warehouse 30) (Some (reading_warehouse 20)) = Some a"
    and "anomalyType a = Spike" and "threshold a = 20" and "severity a = Warning"
    by (auto simp: Let_def e)
  moreover from B have "detectAnomaly (reading_warehouse 25) (Some (reading_warehouse 20)) = None"
    by (simp add: Let_def e)
  moreover from C obtain c where "detectAnomaly (reading_warehouse 15) (Some (reading_warehouse (- 20))) = Some c"
    and "anomalyType c = Spike" and "threshold c = - 20" and "severity c = Critical"
    by (auto simp: Let_def e)
  ultimately show ?thesis using h1 h2 h3 h4 h5 by (simp add: e)
qed

text \<open>
  The division by the previous value has no guard. When that value is 0 the quotient is
  \<open>Infinity\<close> or \<open>NaN\<close>, the test \<open>percentChange \<le> 0.3\<close> is false either way, and an
  anomaly is returned.
\<close>

lemma detectAnomaly_previous_zero_not_none:
  assumes "ZONE_RANGES (zoneId reading) = Some rng"
    and "energyKw reading \<le> rangeMax rng * 1.5"
    and "energyKw reading \<ge> rangeMin rng * 0.5"
    and "zoneId prev = zoneId reading"
    and "energyKw prev = 0"
  shows "detectAnomaly reading (Some prev) \<noteq> None"
  using assms
  by (simp add: detectAnomaly_def ZONE_RANGES_lookup_registered patternDetection_def Let_def
      js_div_def)

text \<open>
  Claim C4 (the code does not do this). The claim asks that a previous reading of
  exactly 0 kW make the pattern check impossible and the result none. On the code, a
  warehouse reading of 30 kW after one of 0 kW is reported as a critical spike with
  threshold 0: the quotient \<open>30 / 0\<close> is \<open>Infinity\<close>.
\<close>

theorem detectAnomaly_previous_zero_spike:
  "detectAnomaly (reading_warehouse 30) (Some (reading_warehouse 0))
     = Some (createAnomaly (reading_warehouse 30) Spike 0 Critical)"
  by (simp add: detectAnomaly_def ZONE_RANGES_lookup_def patternDetection_def Let_def
      js_div_def ZONE_RANGES_def reading_warehouse_def)

section \<open>Zones without a range, and the anomaly types produced\<close>

text \<open>
  When the read of \<open>ZONE_RANGES\<close> yields \<open>undefined\<close>, the guard returns \<open>null\<close>
  whatever the previous reading is. That is the case for a zone id that is neither
  registered nor the name of a property of \<open>Object.prototype\<close>.
\<close>

lemma detectAnomaly_unlisted_key:
  assumes "ZONE_RANGES (zoneId reading) = None"
    and "zoneId reading \<notin> set Object_prototype_keys"
  shows "detectAnomaly reading previousReading = None"
  using assms by (simp add: detectAnomaly_def ZONE_RANGES_lookup_def)

lemma detectAnomaly_loading_dock:
  "detectAnomaly (reading_loading_dock 900) (Some (reading_loading_dock 1)) = None"
  by (rule detectAnomaly_unlisted_key)
     (simp_all add: ZONE_RANGES_def reading_loading_dock_def Object_prototype_keys_def)

text \<open>
  Claim C9 (the code does not do this). The claim asks for none whenever the zone id
  is absent from the range table. The zone id \<open>toString\<close> is absent from the table,
  but \<open>ZONE_RANGES['toString']\<close> is the inherited function, which passes the guard
  \<open>!range\<close>; both thresholds are \<open>NaN\<close>, and the pattern rule reports 30 kW after
  10 kW as a critical spike with threshold 10.
\<close>

theorem detectAnomaly_inherited_key_spike:
  "ZONE_RANGES (zoneId (reading_toString 30)) = None
   \<and> detectAnomaly (reading_toString 30) (Some (reading_toString 10))
       = Some (createAnomaly (reading_toString 30) Spike 10 Critical)"
  by (simp add: detectAnomaly_def ZONE_RANGES_lookup_def Object_prototype_keys_def
      patternDetection_def Let_def js_div_def ZONE_RANGES_def reading_toString_def)

text \<open>
  Claim C10. Whatever the reading and the optional previous reading, the result of
  \<open>detectAnomaly\<close> is none or an anomaly of type spike or drop; the type flatline of
  the data model is never produced.
\<close>

theorem detectAnomaly_never_flatline:
  "detectAnomaly reading previousReading = None
   \<or> (\<exists>a. detectAnomaly reading previousReading = Some a
          \<and> (anomalyType a = Spike \<or> anomalyType a = Drop))"
  by (simp add: detectAnomaly_def patternDetection_def createAnomaly_def Let_def
      split: js_value.split option.split)

section \<open>Baselines\<close>

text \<open>
  The sum is a left fold from 0; the minimum and maximum of a nonempty array are
  finite; the grouping loop stores under each zone id the values of that zone in corpus
  order, under distinct keys.
\<close>

lemma foldl_add_sum_list: "foldl (\<lambda>acc val. acc + val) a xs = a + sum_list (xs :: real list)"
  by (induction xs arbitrary: a) simp_all

lemma smallest_Min: "xs \<noteq> [] \<Longrightarrow> smallest xs = Num (Min (set xs))"
proof (induction xs)
  case Nil
  then show ?case by simp
next
  case (Cons x xs)
  show ?case
  proof (cases "xs = []")
    case True
    then show ?thesis by simp
  next
    case False
    with Cons.IH have "smallest xs = Num (Min (set xs))" by simp
    with False show ?thesis by (simp add: min.commute)
  qed
qed

lemma largest_Max: "xs \<noteq> [] \<Longrightarrow> largest xs = Num (Max (set xs))"
proof (induction xs)
  case Nil
  then show ?case by simp
next
  case (Cons x xs)
  show ?case
  proof (cases "xs = []")
    case True
    then show ?thesis by simp
  next
    case False
    with Cons.IH have "largest xs = Num (Max (set xs))" by simp
    with False show ?thesis by (simp add: max.commute)
  qed
qed

lemma map_of_groupReading:
  "map_of (groupReading r zd)
     = (map_of zd)(zoneId r \<mapsto> (case map_of zd (zoneId r) of None \<Rightarrow> [] | Some vs \<Rightarrow> vs) @ [energyKw r])"
  by (auto simp: groupReading_def Let_def update_conv' split: option.splits)

lemma distinct_groupReading:
  "distinct (map fst zd) \<Longrightarrow> distinct (map fst (groupReading r zd))"
  by (auto simp: groupReading_def Let_def distinct_update split: option.splits)

lemma map_of_fold_groupReading:
  "map_of (fold groupReading rs zd) z
     = (if zoneValues rs z = [] then map_of zd z
        else Some ((case map_of zd z of None \<Rightarrow> [] | Some vs \<Rightarrow> vs) @ zoneValues rs z))"
proof (induction rs arbitrary: zd)
  case Nil
  then show ?case by (simp add: zoneValues_def)
next
  case (Cons r rs)
  show ?case
    by (simp add: Cons.IH map_of_groupReading zoneValues_def split: option.splits)
qed

lemma distinct_fold_groupReading:
  "distinct (map fst zd) \<Longrightarrow> distinct (map fst (fold groupReading rs zd))"
  by (induction rs arbitrary: zd) (simp_all add: distinct_groupReading)

lemma map_of_fold_update:
  "distinct (map fst zd) \<Longrightarrow>
   map_of (fold (\<lambda>(z, vs) bl. AList.update z (f z vs) bl) zd bl0) k
     = (case map_of zd k of None \<Rightarrow> map_of bl0 k | Some vs \<Rightarrow> Some (f k vs))"
proof (induction zd arbitrary: bl0)
  case Nil
  then show ?case by simp
next
  case (Cons p zd)
  obtain z vs where p: "p = (z, vs)" by (cases p)
  from Cons.prems p have d: "distinct (map fst zd)" and nz: "z \<notin> fst ` set zd" by auto
  from nz have none: "map_of zd z = None" by (simp add: map_of_eq_None_iff)
  show ?case
    using Cons.IH [OF d, of "AList.update z (f z vs) bl0"] none
    by (auto simp: p update_conv' split: option.splits)
qed

lemma zoneValues_empty_iff: "zoneValues rs z = [] \<longleftrightarrow> z \<notin> zoneId ` set rs"
  by (auto simp: zoneValues_def filter_empty_conv)

lemma map_of_grouped:
  "map_of (fold groupReading rs []) z
     = (if zoneValues rs z = [] then None else Some (zoneValues rs z))"
  by (simp add: map_of_fold_groupReading)

text \<open>
  A zone's statistics fail exactly when its group has more values than a call takes
  arguments, and so does the whole computation when some group is that large.
\<close>

lemma zoneBaseline_eq:
  "zoneBaseline argLimit corpus z vs
     = (if length vs > argLimit then Inl RangeError else Inr (zoneRecord corpus z vs))"
  by (simp add: zoneBaseline_def math_min_def math_max_def zoneRecord_def Let_def)

lemma baselinesLoop_eq:
  "baselinesLoop argLimit corpus zd bl0
     = (if \<exists>p \<in> set zd. length (snd p) > argLimit then Inl RangeError
        else Inr (fold (\<lambda>(z, vs) bl. AList.update z (zoneRecord corpus z vs) bl) zd bl0))"
proof (induction zd arbitrary: bl0)
  case Nil
  then show ?case by simp
next
  case (Cons p zd)
  obtain z vs where p: "p = (z, vs)" by (cases p)
  show ?case by (simp add: p zoneBaseline_eq Cons.IH)
qed

lemma group_exceeds_iff:
  "(\<exists>p \<in> set (fold groupReading rs []). length (snd p) > argLimit)
     \<longleftrightarrow> (\<exists>z. length (zoneValues rs z) > argLimit)"
proof -
  have d: "distinct (map fst (fold groupReading rs []))"
    by (rule distinct_fold_groupReading) simp
  have mem: "(z, vs) \<in> set (fold groupReading rs [])
               \<longleftrightarrow> zoneValues rs z \<noteq> [] \<and> vs = zoneValues rs z" for z vs
    using map_of_eq_Some_iff [OF d, of z vs] by (auto simp: map_of_grouped split: if_splits)
  show ?thesis
  proof
    assume "\<exists>p \<in> set (fold groupReading rs []). length (snd p) > argLimit"
    then obtain z vs where "(z, vs) \<in> set (fold groupReading rs [])" "length vs > argLimit"
      by auto
    then show "\<exists>z. length (zoneValues rs z) > argLimit" using mem by auto
  next
    assume "\<exists>z. length (zoneValues rs z) > argLimit"
    then obtain z where z: "length (zoneValues rs z) > argLimit" by blast
    then have "zoneValues rs z \<noteq> []" by auto
    then have "(z, zoneValues rs z) \<in> set (fold groupReading rs [])" using mem by simp
    then show "\<exists>p \<in> set (fold groupReading rs []). length (snd p) > argLimit"
      using z by force
  qed
qed

lemma calculateBaselines_throws_iff:
  "calculateBaselines argLimit rs = Inl RangeError
     \<longleftrightarrow> (\<exists>z. length (zoneValues rs z) > argLimit)"
  by (simp add: calculateBaselines_def Let_def baselinesLoop_eq group_exceeds_iff)

lemma zoneRecord_stats:
  assumes "vs \<noteq> []"
  shows "baselineZoneId (zoneRecord rs z vs) = z"
    and "avgEnergyKw (zoneRecord rs z vs) = Num (sum_list vs / real (length vs))"
    and "minEnergyKw (zoneRecord rs z vs) = Num (Min (set vs))"
    and "maxEnergyKw (zoneRecord rs z vs) = Num (Max (set vs))"
    and "dataPoints (zoneRecord rs z vs) = length vs"
  using assms
  by (simp_all add: zoneRecord_def foldl_add_sum_list js_div_def smallest_Min largest_Max)

text \<open>
  As long as no group exceeds the argument limit, the result is a map with an entry
  exactly for the zones of the corpus, and the entry of a zone holds the mean, the
  minimum, the maximum and the number of the zone's values.
\<close>

lemma calculateBaselines_within_limit:
  assumes "\<forall>z. length (zoneValues rs z) \<le> argLimit"
  shows "\<exists>bl. calculateBaselines argLimit rs = Inr bl
           \<and> (\<forall>z. map_of bl z
                 = (if z \<in> zoneId ` set rs then Some (zoneRecord rs z (zoneValues rs z))
                    else None))"
proof -
  have d: "distinct (map fst (fold groupReading rs []))"
    by (rule distinct_fold_groupReading) simp
  have no: "\<not> (\<exists>z. length (zoneValues rs z) > argLimit)"
    using assms by (simp add: not_less)
  show ?thesis
    using no
    by (simp add: calculateBaselines_def Let_def baselinesLoop_eq group_exceeds_iff
        map_of_fold_update [OF d] map_of_grouped zoneValues_empty_iff)
qed

lemma calculateBaselines_example:
  "2 \<le> argLimit \<Longrightarrow>
   calculateBaselines argLimit [corpusReading ''a'' 10, corpusReading ''a'' 20]
     = Inr [(''a'', \<lparr>baselineZoneId = ''a'', baselineZoneName = ''a'', avgEnergyKw = Num 15,
                    minEnergyKw = Num 10, maxEnergyKw = Num 20, dataPoints = 2\<rparr>)]"
  by (simp add: calculateBaselines_def groupReading_def zoneBaseline_def math_min_def
      math_max_def corpusReading_def Let_def js_div_def)

lemma calculateBaselines_empty: "calculateBaselines argLimit [] = Inr []"
  by (simp add: calculateBaselines_def)

text \<open>
  Claim C7 (the code does not do this). The claim promises a baseline for every zone
  of every corpus. The code computes the minimum and maximum with
  \<open>Math.min(...energyValues)\<close> and \<open>Math.max(...energyValues)\<close>; a group with more
  values than the engine accepts as call arguments makes the call throw, and
  \<open>calculateBaselines\<close> ends with \<open>RangeError\<close> instead of a map. Whatever the limit
  is, a corpus with one reading more than the limit in one zone fails.
\<close>

theorem calculateBaselines_large_group_throws:
  "calculateBaselines argLimit (replicate (Suc argLimit) (corpusReading ''a'' 10))
     = Inl RangeError"
proof -
  have "zoneValues (replicate (Suc argLimit) (corpusReading ''a'' 10)) ''a''
          = replicate (Suc argLimit) 10"
    by (simp add: zoneValues_def corpusReading_def)
  then have "length (zoneValues (replicate (Suc argLimit) (corpusReading ''a'' 10)) ''a'')
               > argLimit"
    by simp
  then show ?thesis
    unfolding calculateBaselines_throws_iff by blast
qed

section \<open>Comparison with a baseline\<close>

text \<open>
  Claim C6. The percentage is 0 when the baseline is 0 and
  \<open>(current - baseline) / baseline * 100\<close> otherwise; the status is normal exactly when
  \<open>\<bar>percentage\<bar> < 10\<close>, and outside that band it is above for a positive percentage and
  below otherwise; comparing 110 with 100 gives the percentage 10 and the status above.
\<close>

theorem compare_spec:
  "calculatePercentageDiff current baseline
     = (if baseline = 0 then 0 else (current - baseline) / baseline * 100)
   \<and> (getComparisonStatus percentage = Normal \<longleftrightarrow> \<bar>percentage\<bar> < 10)
   \<and> (getComparisonStatus percentage = Above \<longleftrightarrow> \<bar>percentage\<bar> \<ge> 10 \<and> percentage > 0)
   \<and> (getComparisonStatus percentage = Below \<longleftrightarrow> \<bar>percentage\<bar> \<ge> 10 \<and> percentage \<le> 0)
   \<and> compare current baseline
       = (calculatePercentageDiff current baseline,
          getComparisonStatus (calculatePercentageDiff current baseline))
   \<and> compare 110 100 = (10, Above)"
  by (simp add: calculatePercentageDiff_def getComparisonStatus_def compare_def Let_def)

section \<open>History window\<close>

text \<open>
  One reading changes the window of its own zone only. After any sequence of readings
  the window of a zone holds the last 1500 readings of that zone, in arrival order.
\<close>

lemma window_handleMessage:
  "window (handleMessage r s) z
     = (if zoneId r = z
        then (if length (window s z @ [r]) > MAX_READINGS_PER_ZONE
              then tl (window s z @ [r]) else window s z @ [r])
        else window s z)"
  by (simp add: window_def handleMessage_def Let_def)

lemma window_initialState: "window initialState z = []"
  by (simp add: window_def initialState_def)

lemma ingest_snoc: "ingest (rs @ [r]) = handleMessage r (ingest rs)"
  by (simp add: ingest_def)

lemma slice_last_snoc:
  assumes "0 < n"
  shows "(if length (slice_last n xs @ [r]) > n then tl (slice_last n xs @ [r])
          else slice_last n xs @ [r]) = slice_last n (xs @ [r])"
proof (cases "length xs < n")
  case True
  then show ?thesis by (simp add: slice_last_def)
next
  case False
  then have le: "n \<le> length xs" by simp
  then have len: "length (slice_last n xs) = n" by (simp add: slice_last_def)
  have ne: "slice_last n xs \<noteq> []" using len assms by auto
  have "tl (slice_last n xs @ [r]) = tl (slice_last n xs) @ [r]"
    using ne by simp
  also have "tl (slice_last n xs) = drop (Suc (length xs - n)) xs"
    by (simp add: slice_last_def tl_drop drop_Suc)
  also have "drop (Suc (length xs - n)) xs @ [r] = slice_last n (xs @ [r])"
    using le assms by (simp add: slice_last_def Suc_diff_le)
  finally show ?thesis using len by simp
qed

lemma window_ingest:
  "window (ingest rs) z = slice_last MAX_READINGS_PER_ZONE (filter (\<lambda>r. zoneId r = z) rs)"
proof (induction rs rule: rev_induct)
  case Nil
  then show ?case by (simp add: ingest_def window_initialState slice_last_def)
next
  case (snoc r rs)
  have pos: "0 < MAX_READINGS_PER_ZONE" by (simp add: MAX_READINGS_PER_ZONE_def)
  show ?case
  proof (cases "zoneId r = z")
    case True
    have "window (ingest (rs @ [r])) z
            = (if length (window (ingest rs) z @ [r]) > MAX_READINGS_PER_ZONE
               then tl (window (ingest rs) z @ [r]) else window (ingest rs) z @ [r])"
      using True by (simp only: ingest_snoc window_handleMessage simp_thms if_True)
    also have "\<dots> = slice_last MAX_READINGS_PER_ZONE (filter (\<lambda>r. zoneId r = z) rs @ [r])"
      unfolding snoc.IH by (rule slice_last_snoc [OF pos])
    finally show ?thesis using True by simp
  next
    case False
    then show ?thesis by (simp add: ingest_snoc window_handleMessage snoc.IH)
  qed
qed

lemma last_window_handleMessage: "last (window (handleMessage r s) (zoneId r)) = r"
  by (cases "window s (zoneId r)") (simp_all add: window_handleMessage MAX_READINGS_PER_ZONE_def)

lemma window_handleMessage_fifo:
  "window (handleMessage r s) z
     = (if zoneId r = z
        then (if length (window s z) < MAX_READINGS_PER_ZONE
              then window s z @ [r] else tl (window s z) @ [r])
        else window s z)"
proof (cases "window s z = []")
  case True
  then show ?thesis by (simp add: window_handleMessage MAX_READINGS_PER_ZONE_def)
next
  case False
  then show ?thesis by (auto simp: window_handleMessage)
qed

text \<open>
  Claim C5. The capacity is 1500. For every sequence of ingested readings and every
  zone, the window is exactly the zone's readings in arrival order without the oldest
  ones beyond 1500, so eviction is first in, first out; it holds at most 1500
  readings; when exactly 1501 readings of the zone have been ingested, its first
  element is the second of them; when the zone has been seen at all, its last element
  is the most recent reading of the zone. One more reading is appended at the end of
  its zone's window, the first element leaves when the window was full, and the
  windows of the other zones stay as they are; the reading just handled is the last
  element of its zone's window.
\<close>

theorem history_window_bounded_fifo:
  "MAX_READINGS_PER_ZONE = 1500
   \<and> window (ingest rs) z
       = drop (length (filter (\<lambda>r. zoneId r = z) rs) - MAX_READINGS_PER_ZONE)
              (filter (\<lambda>r. zoneId r = z) rs)
   \<and> length (window (ingest rs) z) \<le> MAX_READINGS_PER_ZONE
   \<and> (length (filter (\<lambda>r. zoneId r = z) rs) = MAX_READINGS_PER_ZONE + 1 \<longrightarrow>
        hd (window (ingest rs) z) = filter (\<lambda>r. zoneId r = z) rs ! 1)
   \<and> (filter (\<lambda>r. zoneId r = z) rs \<noteq> [] \<longrightarrow>
        last (window (ingest rs) z) = last (filter (\<lambda>r. zoneId r = z) rs))
   \<and> window (handleMessage r (ingest rs)) z
       = (if zoneId r = z
          then (if length (window (ingest rs) z) < MAX_READINGS_PER_ZONE
                then window (ingest rs) z @ [r] else tl (window (ingest rs) z) @ [r])
          else window (ingest rs) z)
   \<and> last (window (handleMessage r (ingest rs)) (zoneId r)) = r"
proof -
  let ?xs = "filter (\<lambda>r. zoneId r = z) rs"
  have w: "window (ingest rs) z = drop (length ?xs - MAX_READINGS_PER_ZONE) ?xs"
    by (simp add: window_ingest slice_last_def)
  have a: "length (window (ingest rs) z) \<le> MAX_READINGS_PER_ZONE"
    by (simp add: w)
  have b: "hd (window (ingest rs) z) = ?xs ! 1" if "length ?xs = MAX_READINGS_PER_ZONE + 1"
  proof -
    have "1 < length ?xs" using that by (simp add: MAX_READINGS_PER_ZONE_def)
    then have "hd (drop 1 ?xs) = ?xs ! 1" by (rule hd_drop_conv_nth)
    then show ?thesis using that by (simp add: w)
  qed
  have c: "last (window (ingest rs) z) = last ?xs" if "?xs \<noteq> []"
  proof -
    have "length ?xs - MAX_READINGS_PER_ZONE < length ?xs"
      using that by (simp add: MAX_READINGS_PER_ZONE_def)
    then show ?thesis by (simp add: w)
  qed
  have d: "MAX_READINGS_PER_ZONE = 1500" by (simp add: MAX_READINGS_PER_ZONE_def)
  show ?thesis
    using d w a b c window_handleMessage_fifo [of r "ingest rs" z]
      last_window_handleMessage [of r "ingest rs"]
    by blast
qed

text \<open>
  1501 warehouse readings, numbered by their energy value from 0 to 1500: the window
  is the stream without reading 0. After the first four of them the window holds all
  four, in order.
\<close>

theorem history_window_bounded_fifo_witness:
  "length (filter (\<lambda>r. zoneId r = ''warehouse'') (warehouse_stream 1501)) = MAX_READINGS_PER_ZONE + 1
   \<and> filter (\<lambda>r. zoneId r = ''warehouse'') (warehouse_stream 1501) \<noteq> []
   \<and> window (ingest (warehouse_stream 1501)) ''warehouse'' = drop 1 (warehouse_stream 1501)
   \<and> hd (window (ingest (warehouse_stream 1501)) ''warehouse'') = reading_warehouse 1
   \<and> last (window (ingest (warehouse_stream 1501)) ''warehouse'') = reading_warehouse 1500
   \<and> window (ingest (warehouse_stream 4)) ''warehouse''
       = [reading_warehouse 0, reading_warehouse 1, reading_warehouse 2, reading_warehouse 3]"
proof -
  have z: "\<And>e. zoneId (reading_warehouse e) = ''warehouse''"
    by (simp add: reading_warehouse_def)
  have f: "filter (\<lambda>r. zoneId r = ''warehouse'') (warehouse_stream n) = warehouse_stream n" for n
    by (simp add: warehouse_stream_def filter_map comp_def z)
  have l: "length (warehouse_stream 1501) = MAX_READINGS_PER_ZONE + 1"
    by (simp add: warehouse_stream_def MAX_READINGS_PER_ZONE_def)
  have n: "warehouse_stream 1501 ! 1 = reading_warehouse 1"
    by (simp add: warehouse_stream_def)
  have e: "last (warehouse_stream 1501) = reading_warehouse 1500"
    by (simp add: warehouse_stream_def last_map)
  have ne: "warehouse_stream 1501 \<noteq> []" using l by auto
  have four: "warehouse_stream 4
                = [reading_warehouse 0, reading_warehouse 1, reading_warehouse 2, reading_warehouse 3]"
    by (simp add: warehouse_stream_def upt_rec)
  have l4: "length (warehouse_stream 4) - MAX_READINGS_PER_ZONE = 0"
    by (simp add: warehouse_stream_def MAX_READINGS_PER_ZONE_def)
  note A = history_window_bounded_fifo [of "warehouse_stream 1501" "''warehouse''"]
  note B = history_window_bounded_fifo [of "warehouse_stream 4" "''warehouse''"]
  have w4: "window (ingest (warehouse_stream 4)) ''warehouse'' = warehouse_stream 4"
    using B by (simp add: f l4)
  have w: "window (ingest (warehouse_stream 1501)) ''warehouse'' = drop 1 (warehouse_stream 1501)"
    using A l by (simp add: f)
  show ?thesis
    using A l n e ne w w4 by (simp add: f four)
qed

section \<open>Reconnect policy\<close>

text \<open>The delay table of the earlier variant is the doubling delay capped at 16000 ms.\<close>

lemma tableDelay_eq: "tableDelay n = min (1000 * 2 ^ n) 16000"
proof (cases "n < 5")
  case True
  then consider "n = 0" | "n = 1" | "n = 2" | "n = 3" | "n = 4" by linarith
  then show ?thesis by cases (simp_all add: tableDelay_def delays_def)
next
  case False
  then have "n \<ge> 5" by simp
  then have "(2::nat) ^ 5 \<le> 2 ^ n" by (intro power_increasing) simp_all
  then have "(16000::nat) \<le> 1000 * 2 ^ n" by simp
  with False show ?thesis by (simp add: tableDelay_def delays_def min_def)
qed

text \<open>
  In a run without open and unmount events, started in a mounted state whose two
  counters agree and do not exceed \<open>MAX_RECONNECT\<close>, the counters stay equal, grow by
  one with every close event up to \<open>MAX_RECONNECT\<close>, and the delays are the doubling
  ones until the ceiling is reached.
\<close>

lemma closes_simps [simp]:
  "closes [] = 0"
  "closes (EvClose # evs) = Suc (closes evs)"
  "e \<noteq> EvClose \<Longrightarrow> closes (e # evs) = closes evs"
  by (simp_all add: closes_def)

lemma onclose_mounted:
  assumes "isMounted s" and "reconnectAttemptsRef s \<le> MAX_RECONNECT"
    and "attempts s = reconnectAttemptsRef s"
  shows "isMounted (fst (onclose s))"
    and "reconnectAttemptsRef (fst (onclose s)) = min (Suc (reconnectAttemptsRef s)) MAX_RECONNECT"
    and "attempts (fst (onclose s)) = reconnectAttemptsRef (fst (onclose s))"
    and "snd (onclose s) = retryDelay (reconnectAttemptsRef s) 0"
    and "status (fst (onclose s)) = DISCONNECTED"
  using assms by (simp_all add: onclose_def Let_def retryDelay_def)

lemma retryDelay_shift:
  "a \<le> MAX_RECONNECT \<Longrightarrow>
   retryDelay (min (Suc a) MAX_RECONNECT) k = retryDelay a (Suc k)"
  by (simp add: retryDelay_def min_def)

lemma upt_0_Suc: "[0..<Suc n] = 0 # map Suc [0..<n]"
  by (simp only: map_Suc_upt upt_conv_Cons zero_less_Suc)

lemma run_no_open:
  assumes "isMounted s" and "EvOpen \<notin> set evs" and "EvUnmount \<notin> set evs"
    and "reconnectAttemptsRef s \<le> MAX_RECONNECT"
    and "attempts s = reconnectAttemptsRef s"
  shows "snd (run s evs) = map (retryDelay (reconnectAttemptsRef s)) [0..<closes evs]
       \<and> reconnectAttemptsRef (fst (run s evs))
           = min (reconnectAttemptsRef s + closes evs) MAX_RECONNECT
       \<and> attempts (fst (run s evs)) = reconnectAttemptsRef (fst (run s evs))
       \<and> isMounted (fst (run s evs))"
  using assms
proof (induction evs arbitrary: s)
  case Nil
  then show ?case by simp
next
  case (Cons ev evs)
  have no: "EvOpen \<notin> set evs" "EvUnmount \<notin> set evs" using Cons.prems(2,3) by simp_all
  show ?case
  proof (cases "ev = EvClose")
    case True
    let ?s1 = "fst (onclose s)"
    note oc = onclose_mounted [OF Cons.prems(1,4,5)]
    have le1: "reconnectAttemptsRef ?s1 \<le> MAX_RECONNECT" using oc(2) by simp
    note IH = Cons.IH [OF oc(1) no le1 oc(3)]
    have run_eq: "run s (ev # evs) = (fst (run ?s1 evs), snd (onclose s) # snd (run ?s1 evs))"
      using True by (simp add: split_beta)
    have lst: "snd (onclose s) # snd (run ?s1 evs)
             = map (retryDelay (reconnectAttemptsRef s)) [0..<closes (ev # evs)]"
      using IH True Cons.prems(4)
      by (simp add: oc(2,4) upt_0_Suc retryDelay_shift comp_def del: upt_Suc)
    have cnt: "min (reconnectAttemptsRef ?s1 + closes evs) MAX_RECONNECT
             = min (reconnectAttemptsRef s + closes (ev # evs)) MAX_RECONNECT"
      using True by (simp add: oc(2) min_def)
    show ?thesis
      unfolding run_eq using IH lst cnt by simp
  next
    case False
    with Cons.prems(2,3) consider "ev = EvMessage" | "ev = EvError" | "ev = EvTimer"
      by (cases ev) auto
    then show ?thesis
    proof cases
      case 1
      then show ?thesis using Cons.IH [OF Cons.prems(1) no Cons.prems(4,5)] by simp
    next
      case 2
      have "isMounted (onerror s)" "reconnectAttemptsRef (onerror s) = reconnectAttemptsRef s"
        "attempts (onerror s) = attempts s"
        using Cons.prems(1) by (simp_all add: onerror_def)
      then show ?thesis using 2 Cons.IH [of "onerror s"] no Cons.prems by simp
    next
      case 3
      have "isMounted (ontimeout s)" "reconnectAttemptsRef (ontimeout s) = reconnectAttemptsRef s"
        "attempts (ontimeout s) = attempts s"
        using Cons.prems(1) by (simp_all add: ontimeout_def)
      then show ?thesis using 3 Cons.IH [of "ontimeout s"] no Cons.prems by simp
    qed
  qed
qed

text \<open>
  Claim C8, as stated, fails on the code: the counter does not follow the number of
  close events beyond \<open>MAX_RECONNECT = 5\<close>. After six failed connections in a row the
  counter is 5, and the sixth close schedules no retry.
\<close>

theorem reconnect_counter_stops_counterexample:
  "closes failing_run = 6 \<and> EvOpen \<notin> set failing_run
   \<and> attempts (fst (run initialWs failing_run)) = 5
   \<and> attempts (fst (run initialWs failing_run)) \<noteq> closes failing_run
   \<and> snd (run initialWs failing_run) ! 5 = None"
  by (simp add: failing_run_def closes_def initialWs_def onclose_def onerror_def ontimeout_def
      MAX_RECONNECT_def Let_def)

text \<open>
  Claim C8 (amended). In a run that starts with both counters at 0 (the initial state,
  or the state after an open event) and has no open and no unmount event, let \<open>N\<close> be
  the number of close events. The attempt counter is \<open>min N 5\<close>, so it equals \<open>N\<close> for
  \<open>N \<le> 5\<close>; the \<open>k\<close>-th close, for \<open>k \<le> 5\<close>, schedules a retry after
  \<open>min (1000 * 2 ^ (k - 1)) 16000\<close> ms, and every later close schedules nothing; an
  open event then resets the counter to 0.
\<close>

theorem reconnect_backoff_capped:
  assumes "isMounted s" and "reconnectAttemptsRef s = 0" and "attempts s = 0"
    and "EvOpen \<notin> set evs" and "EvUnmount \<notin> set evs"
  shows "length (snd (run s evs)) = closes evs
       \<and> attempts (fst (run s evs)) = min (closes evs) MAX_RECONNECT
       \<and> (\<forall>k. 1 \<le> k \<and> k \<le> closes evs \<longrightarrow>
             snd (run s evs) ! (k - 1)
               = (if k \<le> MAX_RECONNECT then Some (min (1000 * 2 ^ (k - 1)) 16000) else None))
       \<and> attempts (onopen (fst (run s evs))) = 0
       \<and> reconnectAttemptsRef (onopen (fst (run s evs))) = 0
       \<and> MAX_RECONNECT = 5"
proof -
  have le: "reconnectAttemptsRef s \<le> MAX_RECONNECT" using assms(2) by simp
  have eq: "attempts s = reconnectAttemptsRef s" using assms(2,3) by simp
  note R = run_no_open [OF assms(1,4,5) le eq]
  have len: "length (snd (run s evs)) = closes evs" using R by simp
  have att: "attempts (fst (run s evs)) = min (closes evs) MAX_RECONNECT"
    using R assms(2) by simp
  have del: "snd (run s evs) ! (k - 1)
               = (if k \<le> MAX_RECONNECT then Some (min (1000 * 2 ^ (k - 1)) 16000) else None)"
    if k: "1 \<le> k \<and> k \<le> closes evs" for k
  proof -
    from k have lt: "k - 1 < closes evs" by arith
    have "snd (run s evs) ! (k - 1) = retryDelay 0 (k - 1)"
      using R assms(2) lt by simp
    also have "\<dots> = (if k \<le> MAX_RECONNECT then Some (1000 * 2 ^ (k - 1)) else None)"
      using k by (auto simp: retryDelay_def)
    also have "\<dots> = (if k \<le> MAX_RECONNECT then Some (min (1000 * 2 ^ (k - 1)) 16000) else None)"
    proof (cases "k \<le> MAX_RECONNECT")
      case True
      then have "k - 1 \<le> 4" by (simp add: MAX_RECONNECT_def)
      then have "(2::nat) ^ (k - 1) \<le> 2 ^ 4" by (intro power_increasing) simp_all
      then have "(1000::nat) * 2 ^ (k - 1) \<le> 16000" by simp
      then show ?thesis by (simp add: min_def)
    next
      case False
      then show ?thesis by simp
    qed
    finally show ?thesis .
  qed
  have op: "attempts (onopen (fst (run s evs))) = 0
          \<and> reconnectAttemptsRef (onopen (fst (run s evs))) = 0"
    using R by (simp add: onopen_def)
  show ?thesis using len att del op by (simp add: MAX_RECONNECT_def)
qed

text \<open>The run of six failed connections: delays 1 s to 16 s, then no retry.\<close>

theorem reconnect_backoff_capped_witness:
  "isMounted initialWs \<and> reconnectAttemptsRef initialWs = 0 \<and> attempts initialWs = 0
   \<and> EvOpen \<notin> set failing_run \<and> EvUnmount \<notin> set failing_run
   \<and> closes failing_run = 6
   \<and> attempts (fst (run initialWs failing_run)) = 5
   \<and> snd (run initialWs failing_run) ! 4 = Some 16000
   \<and> snd (run initialWs failing_run) ! 5 = None"
proof -
  have h: "isMounted initialWs" "reconnectAttemptsRef initialWs = 0" "attempts initialWs = 0"
    by (simp_all add: initialWs_def)
  have n: "EvOpen \<notin> set failing_run" "EvUnmount \<notin> set failing_run"
    by (simp_all add: failing_run_def)
  have c: "closes failing_run = 6" by (simp add: failing_run_def closes_def)
  note T = reconnect_backoff_capped [OF h n]
  from T have a: "attempts (fst (run initialWs failing_run)) = 5"
    by (simp add: c MAX_RECONNECT_def)
  note D = T [THEN conjunct2, THEN conjunct2, THEN conjunct1, rule_format]
  have d5: "snd (run initialWs failing_run) ! 4 = Some 16000"
    using D [of 5] c by (simp add: MAX_RECONNECT_def)
  have d6: "snd (run initialWs failing_run) ! 5 = None"
    using D [of 6] c by (simp add: MAX_RECONNECT_def)
  show ?thesis using h n c a d5 d6 by (simp add: MAX_RECONNECT_def)
qed

end
